theory Spec2Isabelle
  imports Complex_Main "HOL-Library.Sublist"
begin

section \<open>Speed estimation for tracked vehicles (speed\_estimation.py)\<close>

text \<open>
  The class \<open>SpeedEstimator\<close> keeps five attributes of its own: \<open>spd\<close>, \<open>trkd_ids\<close>,
  \<open>trk_pt\<close>, \<open>trk_pp\<close> and \<open>speeds\<close>. Python floats are idealised as real numbers,
  Python dictionaries are maps, Python lists are lists.

  The detector, the tracker, the geometry library and the wall clock are not part of
  the repository. What \<open>estimate_speed\<close> reads from them on one iteration of its loop is
  collected in a \<open>detection\<close>: the track id and the class index delivered by the tracker,
  the point \<open>self.track_line[-1]\<close> left by \<open>store_tracking_history\<close>, and the two readings
  of \<open>time()\<close> (the one inside the sampling branch and the one of the final bookkeeping).
  The test \<open>LineString([p, q]).intersects(self.r_s)\<close> and the table \<open>self.names\<close> are
  parameters, gathered in a \<open>solution\<close>.
\<close>

subsection \<open>Data\<close>

type_synonym point = "real \<times> real"

datatype error = KeyError | ZeroDivisionError | FileNotFoundError

record detection =
  track_id :: int
  cls :: int
  position :: point
  t_calc :: real
  t_store :: real

record solution =
  names :: "int \<rightharpoonup> string"
  intersects :: "point \<Rightarrow> point \<Rightarrow> bool"

record estimator =
  spd :: "int \<rightharpoonup> real"
  trkd_ids :: "int list"
  trk_pt :: "int \<rightharpoonup> real"
  trk_pp :: "int \<rightharpoonup> point"
  speeds :: "(string \<times> real) list"

text \<open>The state built by \<open>__init__\<close>.\<close>

definition initial :: estimator where
  "initial = \<lparr>spd = Map.empty, trkd_ids = [], trk_pt = Map.empty, trk_pp = Map.empty, speeds = []\<rparr>"

subsection \<open>Printing integers\<close>

text \<open>\<open>str\<close> of a Python integer, and \<open>int\<close> of a float (truncation towards zero).\<close>

fun show_nat :: "nat \<Rightarrow> string" where
  "show_nat n =
     (if n < 10 then [''0123456789'' ! n]
      else show_nat (n div 10) @ [''0123456789'' ! (n mod 10)])"

declare show_nat.simps [simp del]

definition show_int :: "int \<Rightarrow> string" where
  "show_int i = (if i < 0 then ''-'' @ show_nat (nat (- i)) else show_nat (nat i))"

definition int_of_float :: "real \<Rightarrow> int" where
  "int_of_float x = (if 0 \<le> x then \<lfloor>x\<rfloor> else \<lceil>x\<rceil>)"

subsection \<open>One iteration of the loop of \<open>estimate_speed\<close>\<close>

text \<open>Lines 80 to 83: the two entries are created independently when they are absent.\<close>

definition init_track :: "estimator \<Rightarrow> int \<Rightarrow> point \<Rightarrow> estimator" where
  "init_track st tid p =
     (let st1 = (if tid \<in> dom (trk_pt st) then st else st\<lparr>trk_pt := (trk_pt st)(tid \<mapsto> 0)\<rparr>)
      in (if tid \<in> dom (trk_pp st1) then st1 else st1\<lparr>trk_pp := (trk_pp st1)(tid \<mapsto> p)\<rparr>))"

text \<open>Lines 85 to 89: the label drawn on the box.\<close>

definition speed_text :: "real \<Rightarrow> string" where
  "speed_text v = show_int (int_of_float v) @ '' km/h''"

definition speed_label :: "solution \<Rightarrow> estimator \<Rightarrow> detection \<Rightarrow> error + string" where
  "speed_label sol st d =
     (case spd st (track_id d) of
        Some v \<Rightarrow> Inr (speed_text v)
      | None \<Rightarrow> (case names sol (cls d) of None \<Rightarrow> Inl KeyError | Some n \<Rightarrow> Inr n))"

text \<open>Lines 102 to 107: \<open>direction == "known"\<close>.\<close>

definition direction_known :: "solution \<Rightarrow> estimator \<Rightarrow> detection \<Rightarrow> error + bool" where
  "direction_known sol st d =
     (case trk_pp st (track_id d) of
        None \<Rightarrow> Inl KeyError
      | Some pp \<Rightarrow> Inr (intersects sol pp (position d)))"

text \<open>
  Lines 111 to 122, the body of the sampling branch: the id is appended to \<open>trkd_ids\<close>
  first, then the elapsed time is tested.
\<close>

definition take_sample :: "solution \<Rightarrow> estimator \<Rightarrow> detection \<Rightarrow> error + estimator" where
  "take_sample sol st d =
     (let tid = track_id d;
          st1 = st\<lparr>trkd_ids := trkd_ids st @ [tid]\<rparr>
      in case trk_pt st1 tid of
           None \<Rightarrow> Inl KeyError
         | Some pt \<Rightarrow>
             (let time_difference = t_calc d - pt
              in if time_difference > 0 then
                   (case trk_pp st1 tid of
                      None \<Rightarrow> Inl KeyError
                    | Some pp \<Rightarrow>
                        (let speed = \<bar>snd (position d) - snd pp\<bar> / time_difference;
                             st2 = st1\<lparr>spd := (spd st1)(tid \<mapsto> speed)\<rparr>
                         in case names sol (cls d) of
                              None \<Rightarrow> Inl KeyError
                            | Some vehicle_type \<Rightarrow>
                                Inr (st2\<lparr>speeds := speeds st2 @ [(vehicle_type, speed)]\<rparr>)))
                 else Inr st1))"

text \<open>Lines 124 and 125.\<close>

definition refresh :: "estimator \<Rightarrow> detection \<Rightarrow> estimator" where
  "refresh st d =
     st\<lparr>trk_pt := (trk_pt st)(track_id d \<mapsto> t_store d),
        trk_pp := (trk_pp st)(track_id d \<mapsto> position d)\<rparr>"

text \<open>The whole iteration; it yields the label that was drawn and the new state.\<close>

definition process_detection ::
  "solution \<Rightarrow> estimator \<Rightarrow> detection \<Rightarrow> error + (string \<times> estimator)" where
  "process_detection sol st d =
     (let st1 = init_track st (track_id d) (position d)
      in case speed_label sol st1 d of
           Inl e \<Rightarrow> Inl e
         | Inr label \<Rightarrow>
             (case direction_known sol st1 d of
                Inl e \<Rightarrow> Inl e
              | Inr known \<Rightarrow>
                  (if known \<and> track_id d \<notin> set (trkd_ids st1) then
                     (case take_sample sol st1 d of
                        Inl e \<Rightarrow> Inl e
                      | Inr st2 \<Rightarrow> Inr (label, refresh st2 d))
                   else Inr (label, refresh st1 d))))"

text \<open>
  \<open>estimate_speed\<close> runs the iteration over the detections of one frame, in order. An
  exception leaves the loop at once.
\<close>

fun estimate_speed ::
  "solution \<Rightarrow> estimator \<Rightarrow> detection list \<Rightarrow> error + (string list \<times> estimator)" where
  "estimate_speed sol st [] = Inr ([], st)"
| "estimate_speed sol st (d # ds) =
     (case process_detection sol st d of
        Inl e \<Rightarrow> Inl e
      | Inr (label, st1) \<Rightarrow>
          (case estimate_speed sol st1 ds of
             Inl e \<Rightarrow> Inl e
           | Inr (labels, st2) \<Rightarrow> Inr (label # labels, st2)))"

text \<open>The loop of \<open>main_v7.py\<close>: one call of \<open>estimate_speed\<close> per frame.\<close>

fun run :: "solution \<Rightarrow> estimator \<Rightarrow> detection list list \<Rightarrow> error + estimator" where
  "run sol st [] = Inr st"
| "run sol st (frame # frames) =
     (case estimate_speed sol st frame of
        Inl e \<Rightarrow> Inl e
      | Inr (labels, st1) \<Rightarrow> run sol st1 frames)"

subsection \<open>The samples a run appends, with the id that caused each\<close>

text \<open>
  The list \<open>speeds\<close> does not store track ids. \<open>sample_log\<close> replays the loop and pairs
  every entry that an iteration adds to \<open>speeds\<close> with the track id of that iteration.
\<close>

fun sample_log :: "solution \<Rightarrow> estimator \<Rightarrow> detection list \<Rightarrow> (int \<times> string \<times> real) list" where
  "sample_log sol st [] = []"
| "sample_log sol st (d # ds) =
     (case process_detection sol st d of
        Inl e \<Rightarrow> []
      | Inr (label, st1) \<Rightarrow>
          map (Pair (track_id d)) (drop (length (speeds st)) (speeds st1)) @ sample_log sol st1 ds)"

subsection \<open>An example configuration\<close>

text \<open>
  A region that is the horizontal line of height \<open>h\<close>: the segment from \<open>p\<close> to \<open>q\<close> meets
  it exactly when \<open>h\<close> lies between the two ordinates. Two entries of a class table.
  \<open>seen\<close> is a detection whose two clock readings agree.
\<close>

definition crosses_height :: "real \<Rightarrow> point \<Rightarrow> point \<Rightarrow> bool" where
  "crosses_height h p q = (min (snd p) (snd q) \<le> h \<and> h \<le> max (snd p) (snd q))"

definition example_names :: "int \<rightharpoonup> string" where
  "example_names = [2 \<mapsto> ''car'', 7 \<mapsto> ''truck'']"

definition example_solution :: solution where
  "example_solution = \<lparr>names = example_names, intersects = crosses_height 150\<rparr>"

definition seen :: "int \<Rightarrow> int \<Rightarrow> point \<Rightarrow> real \<Rightarrow> detection" where
  "seen i c p t = \<lparr>track_id = i, cls = c, position = p, t_calc = t, t_store = t\<rparr>"

text \<open>The state of a track that was sampled at speed 50 when it reached \<open>(640, 200)\<close>.\<close>

definition sampled_state :: estimator where
  "sampled_state =
     \<lparr>spd = [1 \<mapsto> 50], trkd_ids = [1], trk_pt = [1 \<mapsto> 2], trk_pp = [1 \<mapsto> (640, 200)],
      speeds = [(''car'', 50)]\<rparr>"

section \<open>The report of \<open>save_speeds_to_file\<close>\<close>

text \<open>
  The file is a sequence of bytes (UTF-8). Class names are taken to be ASCII, as the
  names of the detector are, so that the width Python pads to, counted in characters, is
  the width in bytes. The marker is U+2B55, three bytes in UTF-8.
\<close>

subsection \<open>Format specifications\<close>

definition newline :: string where
  "newline = [CHR 0x0A]"

definition marker :: string where
  "marker = [CHR 0xE2, CHR 0xAD, CHR 0x95]"

text \<open>\<open>{s:<w}\<close> and \<open>{s:>w}\<close>: padding with spaces, never truncating.\<close>

definition ljust :: "nat \<Rightarrow> string \<Rightarrow> string" where
  "ljust w s = s @ replicate (w - length s) CHR '' ''"

definition rjust :: "nat \<Rightarrow> string \<Rightarrow> string" where
  "rjust w s = replicate (w - length s) CHR '' '' @ s"

text \<open>
  \<open>{x:.2f}\<close>: the decimal expansion with two digits after the point, correctly rounded,
  ties going to the even neighbour; the sign is that of \<open>x\<close>.
\<close>

definition round_half_even :: "real \<Rightarrow> int" where
  "round_half_even x =
     (let f = \<lfloor>x\<rfloor>; r = x - of_int f
      in if r < 1 / 2 then f else if 1 / 2 < r then f + 1 else if even f then f else f + 1)"

definition format_2f :: "real \<Rightarrow> string" where
  "format_2f x =
     (let n = nat (round_half_even (\<bar>x\<bar> * 100))
      in (if x < 0 then ''-'' else []) @ show_nat (n div 100) @ ''.'' @
         [''0123456789'' ! (n mod 100 div 10), ''0123456789'' ! (n mod 10)])"

subsection \<open>The lines of the report\<close>

definition header :: string where
  "header = ''Vehicle Type      Speed (km/h)'' @ newline @
            ''=============================='' @ newline"

definition averages_header :: string where
  "averages_header = newline @ ''Average Speeds:'' @ newline @
                     ''=============================='' @ newline"

text \<open>Lines 169 to 174.\<close>

definition sample_line :: "string \<Rightarrow> real \<Rightarrow> string" where
  "sample_line vehicle_type speed =
     (if speed > 100 then
        ljust 13 vehicle_type @ '' '' @ rjust 10 (format_2f speed) @ '' km/h '' @ marker @ newline
      else ljust 15 vehicle_type @ '' '' @ rjust 10 (format_2f speed) @ '' km/h'' @ newline)"

text \<open>Line 183.\<close>

definition average_line :: "string \<Rightarrow> real \<Rightarrow> string" where
  "average_line vehicle_type average_speed =
     ljust 15 vehicle_type @ '' '' @ rjust 10 (format_2f average_speed) @ '' km/h'' @ newline"

subsection \<open>The dictionary \<open>vehicle_speeds\<close>\<close>

text \<open>
  A \<open>defaultdict(list)\<close> keeps its keys in the order of their insertion:
  \<open>vehicle_speeds[k].append(v)\<close> extends the list of an existing key in place and puts a
  new key last.
\<close>

type_synonym vehicle_speeds = "(string \<times> real list) list"

fun dd_append :: "vehicle_speeds \<Rightarrow> string \<Rightarrow> real \<Rightarrow> vehicle_speeds" where
  "dd_append [] k v = [(k, [v])]"
| "dd_append ((k', vs) # rest) k v =
     (if k' = k then (k', vs @ [v]) # rest else (k', vs) # dd_append rest k v)"

subsection \<open>The two loops\<close>

text \<open>
  Lines 168 to 175: the text written so far and the dictionary are carried through the
  loop.
\<close>

fun write_samples :: "(string \<times> real) list \<Rightarrow> string \<Rightarrow> vehicle_speeds \<Rightarrow> string \<times> vehicle_speeds" where
  "write_samples [] out vs = (out, vs)"
| "write_samples ((vehicle_type, speed) # rest) out vs =
     write_samples rest (out @ sample_line vehicle_type speed) (dd_append vs vehicle_type speed)"

text \<open>Lines 181 to 183: \<open>sum(speeds) / len(speeds)\<close> raises when the list is empty.\<close>

fun write_averages :: "vehicle_speeds \<Rightarrow> string \<Rightarrow> error + string" where
  "write_averages [] out = Inr out"
| "write_averages ((vehicle_type, sp) # rest) out =
     (if length sp = 0 then Inl ZeroDivisionError
      else write_averages rest
             (out @ average_line vehicle_type (sum_list sp / real (length sp))))"

subsection \<open>Files\<close>

text \<open>
  A file system is its directories and the content of its files. Opening a file for
  writing in a directory that does not exist raises; mode \<open>w\<close> empties the file, mode
  \<open>a\<close> keeps what it holds.
\<close>

record filesystem =
  directories :: "string list"
  files :: "string \<rightharpoonup> string"

definition write_mode_w :: "filesystem \<Rightarrow> string \<Rightarrow> string \<Rightarrow> filesystem" where
  "write_mode_w fs filename content = fs\<lparr>files := (files fs)(filename \<mapsto> content)\<rparr>"

definition write_mode_a :: "filesystem \<Rightarrow> string \<Rightarrow> string \<Rightarrow> filesystem" where
  "write_mode_a fs filename content =
     fs\<lparr>files := (files fs)(filename \<mapsto>
           (case files fs filename of None \<Rightarrow> content | Some old \<Rightarrow> old @ content))\<rparr>"

definition report_filename :: "string \<Rightarrow> string" where
  "report_filename unique_id = ''output/speeds_'' @ unique_id @ ''.txt''"

text \<open>\<open>save_speeds_to_file\<close>; \<open>unique_id\<close> is the text of \<open>uuid.uuid4()\<close>.\<close>

definition save_speeds_to_file :: "string \<Rightarrow> filesystem \<Rightarrow> estimator \<Rightarrow> error + filesystem" where
  "save_speeds_to_file unique_id fs st =
     (let filename = report_filename unique_id
      in if ''output'' \<notin> set (directories fs) then Inl FileNotFoundError
         else
           (case write_samples (speeds st) header [] of
              (text1, vehicle_speeds) \<Rightarrow>
                (let fs1 = write_mode_w fs filename text1
                 in case write_averages vehicle_speeds averages_header of
                      Inl e \<Rightarrow> Inl e
                    | Inr text2 \<Rightarrow> Inr (write_mode_a fs1 filename text2))))"

subsection \<open>The report as the specification words it\<close>

text \<open>
  The classes in the order in which they are first seen, the samples of one class, the
  arithmetic mean, and the text of the report: header, one line for each sample, the
  header of the averages, one line for each class.
\<close>

fun first_seen :: "'a list \<Rightarrow> 'a list" where
  "first_seen [] = []"
| "first_seen (x # xs) = x # first_seen (filter (\<lambda>y. y \<noteq> x) xs)"

definition class_samples :: "string \<Rightarrow> (string \<times> real) list \<Rightarrow> real list" where
  "class_samples k sp = map snd (filter (\<lambda>s. fst s = k) sp)"

definition mean :: "real list \<Rightarrow> real" where
  "mean xs = sum_list xs / real (length xs)"

definition report_text :: "(string \<times> real) list \<Rightarrow> string" where
  "report_text sp =
     header @ concat (map (\<lambda>(vehicle_type, speed). sample_line vehicle_type speed) sp) @
     averages_header @
     concat (map (\<lambda>k. average_line k (mean (class_samples k sp))) (first_seen (map fst sp)))"

definition example_filesystem :: filesystem where
  "example_filesystem = \<lparr>directories = [''output''], files = Map.empty\<rparr>"

definition example_samples :: "(string \<times> real) list" where
  "example_samples = [(''car'', 50), (''car'', 70), (''truck'', 120)]"

section \<open>Properties of the speed sampler\<close>

lemmas eval_defs = process_detection_def init_track_def speed_label_def direction_known_def
  take_sample_def refresh_def initial_def example_solution_def example_names_def crosses_height_def
  seen_def sampled_state_def Let_def

subsection \<open>What one iteration changes\<close>

lemma init_track_same [simp]:
  "spd (init_track st tid p) = spd st"
  "trkd_ids (init_track st tid p) = trkd_ids st"
  "speeds (init_track st tid p) = speeds st"
  by (simp_all add: init_track_def Let_def)

lemma init_track_other:
  "tid' \<noteq> tid \<Longrightarrow> trk_pt (init_track st tid p) tid' = trk_pt st tid'"
  "tid' \<noteq> tid \<Longrightarrow> trk_pp (init_track st tid p) tid' = trk_pp st tid'"
  by (simp_all add: init_track_def Let_def)

lemma refresh_same [simp]:
  "spd (refresh st d) = spd st"
  "trkd_ids (refresh st d) = trkd_ids st"
  "speeds (refresh st d) = speeds st"
  "trk_pt (refresh st d) = (trk_pt st)(track_id d \<mapsto> t_store d)"
  "trk_pp (refresh st d) = (trk_pp st)(track_id d \<mapsto> position d)"
  by (simp_all add: refresh_def)

lemma take_sample_cases:
  assumes "take_sample sol st d = Inr st'"
  shows "trkd_ids st' = trkd_ids st @ [track_id d] \<and> trk_pt st' = trk_pt st \<and> trk_pp st' = trk_pp st \<and>
     ((speeds st' = speeds st \<and> spd st' = spd st) \<or>
         (\<exists>vt v. 0 \<le> v \<and> speeds st' = speeds st @ [(vt, v)] \<and> spd st' = (spd st)(track_id d \<mapsto> v)))"
  using assms
  by (auto simp: take_sample_def Let_def split: option.splits if_splits)

lemma process_detection_sampled:
  assumes "process_detection sol st d = Inr (l, st')" "track_id d \<in> set (trkd_ids st)"
  shows "speeds st' = speeds st" "spd st' = spd st" "trkd_ids st' = trkd_ids st"
  using assms
  by (auto simp: process_detection_def Let_def split: sum.splits if_splits)

lemma process_detection_cases:
  assumes "process_detection sol st d = Inr (l, st')"
  shows "(speeds st' = speeds st \<and> spd st' = spd st \<and>
          (trkd_ids st' = trkd_ids st \<or> trkd_ids st' = trkd_ids st @ [track_id d])) \<or>
         (\<exists>vt v. 0 \<le> v \<and> speeds st' = speeds st @ [(vt, v)] \<and> spd st' = (spd st)(track_id d \<mapsto> v)
            \<and> track_id d \<notin> set (trkd_ids st) \<and> trkd_ids st' = trkd_ids st @ [track_id d])"
proof (cases "\<exists>st2. take_sample sol (init_track st (track_id d) (position d)) d = Inr st2 \<and> st' = refresh st2 d
      \<and> track_id d \<notin> set (trkd_ids st)")
  case True
  then obtain st2 where ts: "take_sample sol (init_track st (track_id d) (position d)) d = Inr st2"
    and st': "st' = refresh st2 d" and nin: "track_id d \<notin> set (trkd_ids st)" by blast
  from take_sample_cases [OF ts] st' nin show ?thesis by auto
next
  case False
  with assms have "st' = refresh (init_track st (track_id d) (position d)) d"
    by (auto simp: process_detection_def Let_def split: sum.splits if_splits)
  then show ?thesis by simp
qed


lemma process_detection_ids_mono:
  assumes "process_detection sol st d = Inr (l, st')"
  shows "set (trkd_ids st) \<subseteq> set (trkd_ids st')"
  using process_detection_cases [OF assms] by auto

lemma sample_log_sampled:
  "tid \<in> set (trkd_ids st) \<Longrightarrow> tid \<notin> fst ` set (sample_log sol st ds)"
proof (induction ds arbitrary: st)
  case Nil
  then show ?case by simp
next
  case (Cons d ds)
  show ?case
  proof (cases "process_detection sol st d")
    case (Inl e)
    then show ?thesis by simp
  next
    case (Inr r)
    obtain l st1 where r: "r = (l, st1)" by (cases r)
    with Inr have pd: "process_detection sol st d = Inr (l, st1)" by simp
    from process_detection_ids_mono [OF pd] Cons.prems have "tid \<in> set (trkd_ids st1)" by blast
    then have rest: "tid \<notin> fst ` set (sample_log sol st1 ds)" by (rule Cons.IH)
    have "tid \<notin> fst ` set (map (Pair (track_id d)) (drop (length (speeds st)) (speeds st1)))"
    proof (cases "track_id d = tid")
      case True
      with Cons.prems process_detection_sampled(1) [OF pd] show ?thesis by simp
    next
      case False
      then show ?thesis by auto
    qed
    with rest pd show ?thesis by (auto simp: image_Un)
  qed
qed

lemma sample_log_once:
  "length (filter (\<lambda>e. fst e = tid) (sample_log sol st ds)) \<le> 1"
proof (induction ds arbitrary: st)
  case Nil
  then show ?case by simp
next
  case (Cons d ds)
  show ?case
  proof (cases "process_detection sol st d")
    case (Inl e)
    then show ?thesis by simp
  next
    case (Inr r)
    obtain l st1 where r: "r = (l, st1)" by (cases r)
    with Inr have pd: "process_detection sol st d = Inr (l, st1)" by simp
    show ?thesis
    proof (cases "speeds st1 = speeds st")
      case True
      with pd Cons.IH [of st1] show ?thesis by simp
    next
      case False
      with process_detection_cases [OF pd] obtain vt v
        where sp: "speeds st1 = speeds st @ [(vt, v)]"
          and ids: "trkd_ids st1 = trkd_ids st @ [track_id d]" by auto
      show ?thesis
      proof (cases "track_id d = tid")
        case True
        with ids have "tid \<in> set (trkd_ids st1)" by simp
        then have "tid \<notin> fst ` set (sample_log sol st1 ds)" by (rule sample_log_sampled)
        then have "filter (\<lambda>e. fst e = tid) (sample_log sol st1 ds) = []"
          by (auto simp: filter_empty_conv)
        with pd sp show ?thesis by simp
      next
        case False
        with pd sp Cons.IH [of st1] show ?thesis by simp
      qed
    qed
  qed
qed

lemma estimate_speed_speeds:
  "estimate_speed sol st ds = Inr (ls, st') \<Longrightarrow> speeds st' = speeds st @ map snd (sample_log sol st ds)"
proof (induction ds arbitrary: st ls)
  case Nil
  then show ?case by simp
next
  case (Cons d ds)
  from Cons.prems obtain l st1 ls1 where pd: "process_detection sol st d = Inr (l, st1)"
    and es: "estimate_speed sol st1 ds = Inr (ls1, st')"
    by (auto split: sum.splits prod.splits)
  from process_detection_cases [OF pd] have "speeds st1 = speeds st @ drop (length (speeds st)) (speeds st1)"
    by auto
  with Cons.IH [OF es] pd show ?case by (simp add: comp_def)
qed

lemma estimate_speed_spd_sampled:
  "estimate_speed sol st ds = Inr (ls, st') \<Longrightarrow> tid \<in> set (trkd_ids st) \<Longrightarrow> spd st' tid = spd st tid"
proof (induction ds arbitrary: st ls)
  case Nil
  then show ?case by simp
next
  case (Cons d ds)
  from Cons.prems obtain l st1 ls1 where pd: "process_detection sol st d = Inr (l, st1)"
    and es: "estimate_speed sol st1 ds = Inr (ls1, st')"
    by (auto split: sum.splits prod.splits)
  from process_detection_ids_mono [OF pd] Cons.prems have in1: "tid \<in> set (trkd_ids st1)" by blast
  from process_detection_cases [OF pd] Cons.prems(2) have "spd st1 tid = spd st tid" by auto
  with Cons.IH [OF es in1] show ?case by simp
qed

subsection \<open>Frames and their concatenation\<close>

lemma estimate_speed_append:
  "estimate_speed sol st (xs @ ys) =
     (case estimate_speed sol st xs of
        Inl e \<Rightarrow> Inl e
      | Inr (ls, st1) \<Rightarrow>
          (case estimate_speed sol st1 ys of
             Inl e \<Rightarrow> Inl e
           | Inr (ls', st2) \<Rightarrow> Inr (ls @ ls', st2)))"
  by (induction xs arbitrary: st) (auto split: sum.splits prod.splits)

lemma run_concat:
  "run sol st frames =
     (case estimate_speed sol st (concat frames) of Inl e \<Rightarrow> Inl e | Inr (ls, st') \<Rightarrow> Inr st')"
  by (induction frames arbitrary: st) (auto simp: estimate_speed_append split: sum.splits prod.splits)

subsection \<open>At most one sample for each track id\<close>

text \<open>
  Claim C1. Whatever the starting state and the frames, the samples appended on behalf
  of one track id number at most one; an id that is in \<open>trkd_ids\<close> causes no sample and its
  entry of \<open>spd\<close> is not written again; and when the run returns, \<open>speeds\<close> is the old list
  followed by exactly the logged samples.
\<close>

theorem C1_at_most_one_sample:
  "length (filter (\<lambda>e. fst e = tid) (sample_log sol st (concat frames))) \<le> 1 \<and>
   (tid \<in> set (trkd_ids st) \<longrightarrow> tid \<notin> fst ` set (sample_log sol st (concat frames))) \<and>
   (\<forall>st'. run sol st frames = Inr st' \<longrightarrow>
      speeds st' = speeds st @ map snd (sample_log sol st (concat frames)) \<and>
      (tid \<in> set (trkd_ids st) \<longrightarrow> spd st' tid = spd st tid))"
proof (intro conjI allI impI)
  show "length (filter (\<lambda>e. fst e = tid) (sample_log sol st (concat frames))) \<le> 1"
    by (rule sample_log_once)
next
  assume "tid \<in> set (trkd_ids st)"
  then show "tid \<notin> fst ` set (sample_log sol st (concat frames))" by (rule sample_log_sampled)
next
  fix st' assume "run sol st frames = Inr st'"
  then obtain ls where "estimate_speed sol st (concat frames) = Inr (ls, st')"
    by (auto simp: run_concat split: sum.splits prod.splits)
  then show "speeds st' = speeds st @ map snd (sample_log sol st (concat frames))"
    by (rule estimate_speed_speeds)
next
  fix st' assume "run sol st frames = Inr st'" and t: "tid \<in> set (trkd_ids st)"
  then obtain ls where "estimate_speed sol st (concat frames) = Inr (ls, st')"
    by (auto simp: run_concat split: sum.splits prod.splits)
  then show "spd st' tid = spd st tid" using t by (rule estimate_speed_spd_sampled)
qed


theorem C1_at_most_one_sample_witness:
  "1 \<in> set (trkd_ids sampled_state) \<and>
   1 \<notin> fst ` set (sample_log example_solution sampled_state
                      (concat [[seen 1 2 (640, 100) 4], [seen 1 2 (640, 200) 6]])) \<and>
   (case run example_solution sampled_state [[seen 1 2 (640, 100) 4], [seen 1 2 (640, 200) 6]] of
      Inl e \<Rightarrow> False
    | Inr st \<Rightarrow> speeds st = [(''car'', 50)] \<and> spd st 1 = Some 50)"
  using C1_at_most_one_sample [of 1 example_solution sampled_state
      "[[seen 1 2 (640, 100) 4], [seen 1 2 (640, 200) 6]]"]
  by (simp add: eval_defs)

subsection \<open>A crossing with no elapsed time\<close>

text \<open>
  Claim C2 (the code departs from it). A track is first seen at time 12; on the next
  frame it crosses the region while the clock still reads 12. No sample is produced and
  nothing is raised, but the id is now in \<open>trkd_ids\<close>: when it crosses again at time 14,
  with two seconds elapsed, still no sample is taken.
\<close>

theorem C2_zero_elapsed_marks_sampled:
  "(case run example_solution initial
           [[seen 1 2 (640, 100) 12], [seen 1 2 (640, 200) 12], [seen 1 2 (640, 100) 14]] of
      Inl e \<Rightarrow> False
    | Inr st \<Rightarrow> speeds st = [] \<and> trkd_ids st = [1] \<and> spd st 1 = None) \<and>
   (case run example_solution initial [[seen 1 2 (640, 100) 12], [seen 1 2 (640, 200) 12]] of
      Inl e \<Rightarrow> False
    | Inr st \<Rightarrow> speeds st = [] \<and> trkd_ids st = [1] \<and> trk_pt st 1 = Some 12) \<and>
   crosses_height 150 (640, 200) (640, 100) \<and> (14::real) - 12 > 0"
  by (simp add: eval_defs)

subsection \<open>The first frame of a track\<close>

lemma init_track_fresh:
  "tid \<notin> dom (trk_pt st) \<Longrightarrow> trk_pt (init_track st tid p) tid = Some 0"
  "tid \<notin> dom (trk_pp st) \<Longrightarrow> trk_pp (init_track st tid p) tid = Some p"
  by (auto simp: init_track_def Let_def)

lemma init_track_known:
  "trk_pt st tid = Some t \<Longrightarrow> trk_pt (init_track st tid p) tid = Some t"
  "trk_pp st tid = Some q \<Longrightarrow> trk_pp (init_track st tid p) tid = Some q"
  by (auto simp: init_track_def Let_def)

text \<open>
  Claim C3, as amended. When a track id has no stored timestamp, the timestamp is
  initialised to zero, and when it has no stored position, the position is initialised
  to the current one; the timestamp becomes the reading of the clock only in the
  bookkeeping that ends the iteration.
\<close>

theorem C3_first_frame_initialisation:
  "(track_id d \<notin> dom (trk_pt st) \<longrightarrow>
      trk_pt (init_track st (track_id d) (position d)) (track_id d) = Some 0) \<and>
   (track_id d \<notin> dom (trk_pp st) \<longrightarrow>
      trk_pp (init_track st (track_id d) (position d)) (track_id d) = Some (position d)) \<and>
   (\<forall>label st'. process_detection sol st d = Inr (label, st') \<longrightarrow>
      trk_pt st' (track_id d) = Some (t_store d) \<and> trk_pp st' (track_id d) = Some (position d))"
proof (intro conjI allI impI)
  fix label st' assume pd: "process_detection sol st d = Inr (label, st')"
  then have "(\<exists>st2. st' = refresh st2 d)"
    by (auto simp: process_detection_def Let_def split: sum.splits if_splits)
  then show "trk_pt st' (track_id d) = Some (t_store d)" "trk_pp st' (track_id d) = Some (position d)"
    by auto
qed (simp_all add: init_track_fresh)

theorem C3_first_frame_initialisation_witness:
  "track_id (seen 1 2 (640, 100) 1000) \<notin> dom (trk_pt initial) \<and>
   track_id (seen 1 2 (640, 100) 1000) \<notin> dom (trk_pp initial) \<and>
   trk_pt (init_track initial 1 (640, 100)) 1 = Some 0 \<and>
   trk_pp (init_track initial 1 (640, 100)) 1 = Some (640, 100) \<and>
   (case process_detection example_solution initial (seen 1 2 (640, 100) 1000) of
      Inl e \<Rightarrow> False
    | Inr (label, st) \<Rightarrow> trk_pt st 1 = Some 1000 \<and> trk_pp st 1 = Some (640, 100))"
  using C3_first_frame_initialisation [of "seen 1 2 (640, 100) 1000" initial example_solution]
  by (simp add: eval_defs)

text \<open>
  The timestamp a new track starts with is not the time it was first seen: a track first
  seen at time 1000, at a point of the region, is sampled at once with an elapsed time of
  1000 and a recorded speed of 0.
\<close>

theorem C3_counterexample:
  "trk_pt (init_track initial 1 (640, 150)) 1 = Some 0 \<and>
   trk_pt (init_track initial 1 (640, 150)) 1 \<noteq> Some (t_calc (seen 1 2 (640, 150) 1000)) \<and>
   (case process_detection example_solution initial (seen 1 2 (640, 150) 1000) of
      Inl e \<Rightarrow> False
    | Inr (label, st) \<Rightarrow> speeds st = [(''car'', 0)] \<and> trkd_ids st = [1])"
  by (simp add: eval_defs)

subsection \<open>The recorded speed\<close>

lemma process_detection_sample:
  assumes pp: "trk_pp st (track_id d) = Some pp" and pt: "trk_pt st (track_id d) = Some pt"
    and cross: "intersects sol pp (position d)" and fresh: "track_id d \<notin> set (trkd_ids st)"
    and el: "t_calc d - pt > 0" and nm: "names sol (cls d) = Some vt"
  shows "\<exists>label st'. process_detection sol st d = Inr (label, st') \<and>
           speeds st' = speeds st @ [(vt, \<bar>snd (position d) - snd pp\<bar> / (t_calc d - pt))] \<and>
           spd st' (track_id d) = Some (\<bar>snd (position d) - snd pp\<bar> / (t_calc d - pt))"
proof -
  let ?st1 = "init_track st (track_id d) (position d)"
  have 1: "trk_pp ?st1 (track_id d) = Some pp" "trk_pt ?st1 (track_id d) = Some pt"
    using pp pt by (simp_all add: init_track_known)
  have "\<exists>label. speed_label sol ?st1 d = Inr label"
    using nm by (cases "spd st (track_id d)") (simp_all add: speed_label_def)
  then obtain label where l: "speed_label sol ?st1 d = Inr label" ..
  have dk: "direction_known sol ?st1 d = Inr True"
    using 1 cross by (simp add: direction_known_def)
  have ts: "take_sample sol ?st1 d =
      Inr (?st1\<lparr>trkd_ids := trkd_ids st @ [track_id d],
                spd := (spd st)(track_id d \<mapsto> \<bar>snd (position d) - snd pp\<bar> / (t_calc d - pt)),
                speeds := speeds st @ [(vt, \<bar>snd (position d) - snd pp\<bar> / (t_calc d - pt))]\<rparr>)"
    using 1 el nm by (simp add: take_sample_def Let_def)
  show ?thesis
    using l dk ts fresh by (simp add: process_detection_def Let_def)
qed

text \<open>
  Claim C4. When a track with stored position \<open>pp\<close> and stored timestamp \<open>pt\<close> crosses the
  region, is not in \<open>trkd_ids\<close> and the elapsed time is positive, the iteration succeeds
  and appends the class name with the speed \<open>|y - y\<^sub>p\<^sub>p| / (t - pt)\<close>. In particular a
  track seen at \<open>(640, 100)\<close> at time 0 and at \<open>(640, 200)\<close> at time 2, whose motion meets
  the region, leaves exactly one sample, of speed 50, under its class.
\<close>

theorem C4_speed_formula:
  "(trk_pp st (track_id d) = Some pp \<and> trk_pt st (track_id d) = Some pt \<and>
    intersects sol pp (position d) \<and> track_id d \<notin> set (trkd_ids st) \<and>
    t_calc d - pt > 0 \<and> names sol (cls d) = Some vt \<longrightarrow>
      (\<exists>label st'. process_detection sol st d = Inr (label, st') \<and>
         speeds st' = speeds st @ [(vt, \<bar>snd (position d) - snd pp\<bar> / (t_calc d - pt))] \<and>
         spd st' (track_id d) = Some (\<bar>snd (position d) - snd pp\<bar> / (t_calc d - pt)))) \<and>
   (\<not> intersects sol (640, 100) (640, 100) \<and> intersects sol (640, 100) (640, 200) \<and>
    names sol c = Some vt \<longrightarrow>
      (\<exists>st'. run sol initial
          [[\<lparr>track_id = i, cls = c, position = (640, 100), t_calc = t0, t_store = 0\<rparr>],
           [\<lparr>track_id = i, cls = c, position = (640, 200), t_calc = 2, t_store = t2\<rparr>]] = Inr st' \<and>
         speeds st' = [(vt, 50)] \<and> spd st' i = Some 50))"
proof (intro conjI impI)
  assume "trk_pp st (track_id d) = Some pp \<and> trk_pt st (track_id d) = Some pt \<and>
    intersects sol pp (position d) \<and> track_id d \<notin> set (trkd_ids st) \<and>
    t_calc d - pt > 0 \<and> names sol (cls d) = Some vt"
  then show "\<exists>label st'. process_detection sol st d = Inr (label, st') \<and>
         speeds st' = speeds st @ [(vt, \<bar>snd (position d) - snd pp\<bar> / (t_calc d - pt))] \<and>
         spd st' (track_id d) = Some (\<bar>snd (position d) - snd pp\<bar> / (t_calc d - pt))"
    using process_detection_sample by blast
next
  assume "\<not> intersects sol (640, 100) (640, 100) \<and> intersects sol (640, 100) (640, 200) \<and>
    names sol c = Some vt"
  then show "\<exists>st'. run sol initial
          [[\<lparr>track_id = i, cls = c, position = (640, 100), t_calc = t0, t_store = 0\<rparr>],
           [\<lparr>track_id = i, cls = c, position = (640, 200), t_calc = 2, t_store = t2\<rparr>]] = Inr st' \<and>
         speeds st' = [(vt, 50)] \<and> spd st' i = Some 50"
    by (simp add: process_detection_def init_track_def speed_label_def direction_known_def
        take_sample_def refresh_def initial_def Let_def)
qed

theorem C4_speed_formula_witness:
  "\<not> intersects example_solution (640, 100) (640, 100) \<and>
   intersects example_solution (640, 100) (640, 200) \<and>
   names example_solution 2 = Some ''car'' \<and>
   (case run example_solution initial [[seen 1 2 (640, 100) 0], [seen 1 2 (640, 200) 2]] of
      Inl e \<Rightarrow> False
    | Inr st \<Rightarrow> speeds st = [(''car'', \<bar>200 - 100\<bar> / 2)] \<and> speeds st = [(''car'', 50)])"
  using C4_speed_formula [of initial "seen 1 2 (640, 100) 0" "(640, 100)" 0 example_solution
      "''car''" 2 1 0 2]
  by (simp add: eval_defs)

subsection \<open>Recorded speeds are not negative\<close>

lemma sample_log_nonneg:
  "e \<in> set (sample_log sol st ds) \<Longrightarrow> 0 \<le> snd (snd e)"
proof (induction ds arbitrary: st)
  case Nil
  then show ?case by simp
next
  case (Cons d ds)
  show ?case
  proof (cases "process_detection sol st d")
    case (Inl a)
    with Cons.prems show ?thesis by simp
  next
    case (Inr r)
    obtain l st1 where "r = (l, st1)" by (cases r)
    with Inr have pd: "process_detection sol st d = Inr (l, st1)" by simp
    from Cons.prems pd consider
      (new) "e \<in> Pair (track_id d) ` set (drop (length (speeds st)) (speeds st1))"
      | (old) "e \<in> set (sample_log sol st1 ds)" by auto
    then show ?thesis
    proof cases
      case new
      with process_detection_cases [OF pd] show ?thesis by auto
    next
      case old
      then show ?thesis by (rule Cons.IH)
    qed
  qed
qed

text \<open>
  Claim C5. Every sample that any sequence of frames appends, from any starting state,
  has a speed of at least zero; hence every entry of \<open>speeds\<close> after a run from the
  initial state (or from any state whose entries are not negative) is at least zero.
\<close>

theorem C5_speed_nonnegative:
  "(\<forall>e \<in> set (sample_log sol st (concat frames)). 0 \<le> snd (snd e)) \<and>
   (\<forall>st'. run sol initial frames = Inr st' \<longrightarrow> (\<forall>s \<in> set (speeds st'). 0 \<le> snd s)) \<and>
   (\<forall>st'. (\<forall>s \<in> set (speeds st). 0 \<le> snd s) \<and> run sol st frames = Inr st' \<longrightarrow>
      (\<forall>s \<in> set (speeds st'). 0 \<le> snd s))"
proof -
  have log: "\<forall>e \<in> set (sample_log sol st0 (concat frames)). 0 \<le> snd (snd e)" for st0
    using sample_log_nonneg by blast
  have gen: "\<forall>s \<in> set (speeds st'). 0 \<le> snd s"
    if old: "\<forall>s \<in> set (speeds st0). 0 \<le> snd s" and r: "run sol st0 frames = Inr st'" for st0 st'
  proof -
    from r obtain ls where "estimate_speed sol st0 (concat frames) = Inr (ls, st')"
      by (auto simp: run_concat split: sum.splits prod.splits)
    then have "speeds st' = speeds st0 @ map snd (sample_log sol st0 (concat frames))"
      by (rule estimate_speed_speeds)
    with old log [of st0] show ?thesis by auto
  qed
  have "\<forall>s \<in> set (speeds initial). 0 \<le> snd s" by (simp add: initial_def)
  with gen [of initial] gen [of st] log [of st] show ?thesis by blast
qed

theorem C5_speed_nonnegative_witness:
  "sample_log example_solution initial
     (concat [[seen 1 2 (640, 200) 0], [seen 1 2 (640, 100) 2]]) = [(1, ''car'', 50)] \<and>
   (case run example_solution initial [[seen 1 2 (640, 200) 0], [seen 1 2 (640, 100) 2]] of
      Inl e \<Rightarrow> False
    | Inr st \<Rightarrow> speeds st = [(''car'', 50)] \<and> 0 \<le> snd (hd (speeds st)))"
  using C5_speed_nonnegative [of example_solution initial
      "[[seen 1 2 (640, 200) 0], [seen 1 2 (640, 100) 2]]"]
  by (simp add: eval_defs)

subsection \<open>The label drawn for a track\<close>

lemma process_detection_label:
  assumes "process_detection sol st d = Inr (label, st')"
  shows "(spd st (track_id d) = None \<longrightarrow> names sol (cls d) = Some label) \<and>
         (\<forall>v. spd st (track_id d) = Some v \<longrightarrow> label = speed_text v)"
proof -
  from assms have "speed_label sol (init_track st (track_id d) (position d)) d = Inr label"
    by (auto simp: process_detection_def Let_def split: sum.splits if_splits)
  then show ?thesis
    by (auto simp: speed_label_def split: option.splits)
qed

lemma process_detection_inv:
  assumes "process_detection sol st d = Inr (label, st')" "dom (spd st) \<subseteq> set (trkd_ids st)"
  shows "dom (spd st') \<subseteq> set (trkd_ids st')"
proof
  fix k assume "k \<in> dom (spd st')"
  then obtain v where k: "spd st' k = Some v" by auto
  from process_detection_cases [OF assms(1)] show "k \<in> set (trkd_ids st')"
  proof
    assume "speeds st' = speeds st \<and> spd st' = spd st \<and>
      (trkd_ids st' = trkd_ids st \<or> trkd_ids st' = trkd_ids st @ [track_id d])"
    with k assms(2) show ?thesis by (auto simp: subset_iff domIff)
  next
    assume "\<exists>vt v. 0 \<le> v \<and> speeds st' = speeds st @ [(vt, v)] \<and>
      spd st' = (spd st)(track_id d \<mapsto> v) \<and> track_id d \<notin> set (trkd_ids st) \<and>
      trkd_ids st' = trkd_ids st @ [track_id d]"
    with k assms(2) show ?thesis by (cases "k = track_id d") (auto simp: subset_iff domIff)
  qed
qed

lemma estimate_speed_inv:
  "estimate_speed sol st ds = Inr (ls, st') \<Longrightarrow> dom (spd st) \<subseteq> set (trkd_ids st) \<Longrightarrow>
   dom (spd st') \<subseteq> set (trkd_ids st')"
proof (induction ds arbitrary: st ls)
  case Nil
  then show ?case by simp
next
  case (Cons d ds)
  from Cons.prems(1) obtain l st1 ls1 where pd: "process_detection sol st d = Inr (l, st1)"
    and es: "estimate_speed sol st1 ds = Inr (ls1, st')"
    by (auto split: sum.splits prod.splits)
  show ?case by (rule Cons.IH [OF es process_detection_inv [OF pd Cons.prems(2)]])
qed

lemma spd_kept:
  assumes inv: "dom (spd st) \<subseteq> set (trkd_ids st)" and v: "spd st tid = Some v"
    and es: "estimate_speed sol st ds = Inr (ls, st')"
  shows "spd st' tid = Some v"
proof -
  from inv v have "tid \<in> set (trkd_ids st)" by auto
  with estimate_speed_spd_sampled [OF es] v show ?thesis by simp
qed

lemma spd_from_log:
  "estimate_speed sol st ds = Inr (ls, st') \<Longrightarrow> spd st' tid = Some v \<Longrightarrow>
   spd st tid = Some v \<or> (\<exists>vt. (tid, vt, v) \<in> set (sample_log sol st ds))"
proof (induction ds arbitrary: st ls)
  case Nil
  then show ?case by simp
next
  case (Cons d ds)
  from Cons.prems(1) obtain l st1 ls1 where pd: "process_detection sol st d = Inr (l, st1)"
    and es: "estimate_speed sol st1 ds = Inr (ls1, st')"
    by (auto split: sum.splits prod.splits)
  from Cons.IH [OF es Cons.prems(2)] show ?case
  proof
    assume later: "\<exists>vt. (tid, vt, v) \<in> set (sample_log sol st1 ds)"
    with pd show ?thesis by auto
  next
    assume v1: "spd st1 tid = Some v"
    show ?thesis
    proof (cases "spd st1 = spd st")
      case True
      with v1 show ?thesis by simp
    next
      case False
      with process_detection_cases [OF pd] obtain vt v'
        where sp: "speeds st1 = speeds st @ [(vt, v')]"
          and upd: "spd st1 = (spd st)(track_id d \<mapsto> v')" by auto
      show ?thesis
      proof (cases "tid = track_id d")
        case True
        with v1 upd have "v' = v" by simp
        with True pd sp have "(tid, vt, v) \<in> set (sample_log sol st (d # ds))" by simp
        then show ?thesis by blast
      next
        case False
        with v1 upd show ?thesis by simp
      qed
    qed
  qed
qed

text \<open>
  Claim C6. In a run from the initial state, the label drawn for a detection is the
  class name as long as no speed is recorded for its track id. Once a speed \<open>v\<close> is
  recorded for the id, the label is the decimal text of \<open>int(v)\<close> followed by \<open>km/h\<close>,
  where \<open>v\<close> is the speed of the sample that the run appended for this id; the recorded
  speed is the same at every later detection, so the label does not go back to the class
  name.
\<close>

theorem C6_label_never_reverts:
  "estimate_speed sol initial ds1 = Inr (ls1, st1) \<and> estimate_speed sol st1 ds2 = Inr (ls2, st2) \<and>
   process_detection sol st2 d = Inr (label, st3) \<longrightarrow>
     (spd st2 (track_id d) = None \<longrightarrow> names sol (cls d) = Some label) \<and>
     (\<forall>v. spd st2 (track_id d) = Some v \<longrightarrow>
        label = show_int (int_of_float v) @ '' km/h'' \<and> spd st3 (track_id d) = Some v \<and>
        (\<exists>vt. (track_id d, vt, v) \<in> set (sample_log sol initial (ds1 @ ds2)))) \<and>
     (\<forall>v. spd st1 (track_id d) = Some v \<longrightarrow>
        spd st2 (track_id d) = Some v \<and> label = show_int (int_of_float v) @ '' km/h'')"
proof (intro impI, elim conjE)
  assume e1: "estimate_speed sol initial ds1 = Inr (ls1, st1)"
    and e2: "estimate_speed sol st1 ds2 = Inr (ls2, st2)"
    and pd: "process_detection sol st2 d = Inr (label, st3)"
  have "dom (spd initial) \<subseteq> set (trkd_ids initial)" by (simp add: initial_def)
  then have inv1: "dom (spd st1) \<subseteq> set (trkd_ids st1)" by (rule estimate_speed_inv [OF e1])
  then have inv2: "dom (spd st2) \<subseteq> set (trkd_ids st2)" by (rule estimate_speed_inv [OF e2])
  note pl = process_detection_label [OF pd]
  from pl have none: "spd st2 (track_id d) = None \<longrightarrow> names sol (cls d) = Some label"
    by simp
  have lab: "label = show_int (int_of_float v) @ '' km/h''" if "spd st2 (track_id d) = Some v" for v
    using pl that by (simp add: speed_text_def)
  have keep3: "spd st3 (track_id d) = Some v" if "spd st2 (track_id d) = Some v" for v
  proof -
    from that inv2 have "track_id d \<in> set (trkd_ids st2)" by auto
    with process_detection_sampled(2) [OF pd] that show ?thesis by simp
  qed
  have keep2: "spd st2 (track_id d) = Some v" if "spd st1 (track_id d) = Some v" for v
    using spd_kept [OF inv1 that e2] .
  have whole: "estimate_speed sol initial (ds1 @ ds2) = Inr (ls1 @ ls2, st2)"
    using e1 e2 by (simp add: estimate_speed_append)
  have logged: "\<exists>vt. (track_id d, vt, v) \<in> set (sample_log sol initial (ds1 @ ds2))"
    if "spd st2 (track_id d) = Some v" for v
    using spd_from_log [OF whole that] by (simp add: initial_def)
  from none lab keep2 keep3 logged show
    "(spd st2 (track_id d) = None \<longrightarrow> names sol (cls d) = Some label) \<and>
     (\<forall>v. spd st2 (track_id d) = Some v \<longrightarrow>
        label = show_int (int_of_float v) @ '' km/h'' \<and> spd st3 (track_id d) = Some v \<and>
        (\<exists>vt. (track_id d, vt, v) \<in> set (sample_log sol initial (ds1 @ ds2)))) \<and>
     (\<forall>v. spd st1 (track_id d) = Some v \<longrightarrow>
        spd st2 (track_id d) = Some v \<and> label = show_int (int_of_float v) @ '' km/h'')"
    by blast
qed

lemma show_nat_50: "show_nat 50 = ''50''"
  by (simp add: show_nat.simps)

theorem C6_label_never_reverts_witness:
  "estimate_speed example_solution initial [seen 1 2 (640, 100) 0, seen 1 2 (640, 200) 2] =
     Inr ([''car'', ''car''], sampled_state) \<and>
   estimate_speed example_solution sampled_state [seen 1 2 (640, 300) 4] =
     Inr ([''50 km/h''], sampled_state\<lparr>trk_pt := [1 \<mapsto> 4], trk_pp := [1 \<mapsto> (640, 300)]\<rparr>) \<and>
   process_detection example_solution
     (sampled_state\<lparr>trk_pt := [1 \<mapsto> 4], trk_pp := [1 \<mapsto> (640, 300)]\<rparr>) (seen 1 2 (640, 100) 6) =
     Inr (''50 km/h'', sampled_state\<lparr>trk_pt := [1 \<mapsto> 6], trk_pp := [1 \<mapsto> (640, 100)]\<rparr>) \<and>
   spd sampled_state 1 = Some 50 \<and> show_int (int_of_float 50) @ '' km/h'' = ''50 km/h'' \<and>
   sample_log example_solution initial
     ([seen 1 2 (640, 100) 0, seen 1 2 (640, 200) 2] @ [seen 1 2 (640, 300) 4]) = [(1, ''car'', 50)]"
  using C6_label_never_reverts [of example_solution
      "[seen 1 2 (640, 100) 0, seen 1 2 (640, 200) 2]" "[''car'', ''car'']" sampled_state
      "[seen 1 2 (640, 300) 4]" "[''50 km/h'']"
      "sampled_state\<lparr>trk_pt := [1 \<mapsto> 4], trk_pp := [1 \<mapsto> (640, 300)]\<rparr>"
      "seen 1 2 (640, 100) 6" "''50 km/h''"
      "sampled_state\<lparr>trk_pt := [1 \<mapsto> 6], trk_pp := [1 \<mapsto> (640, 100)]\<rparr>"]
  by (simp add: eval_defs speed_text_def show_int_def int_of_float_def show_nat_50)

subsection \<open>The bookkeeping that ends every iteration\<close>

lemma process_detection_other:
  assumes "process_detection sol st d = Inr (label, st')" "tid \<noteq> track_id d"
  shows "trk_pt st' tid = trk_pt st tid \<and> trk_pp st' tid = trk_pp st tid"
proof -
  let ?st1 = "init_track st (track_id d) (position d)"
  from assms(1) consider (plain) "st' = refresh ?st1 d"
    | (sample) st2 where "take_sample sol ?st1 d = Inr st2" "st' = refresh st2 d"
    by (auto simp: process_detection_def Let_def split: sum.splits if_splits)
  then show ?thesis
  proof cases
    case plain
    with assms(2) show ?thesis by (simp add: init_track_other)
  next
    case sample
    from take_sample_cases [OF sample(1)] sample(2) assms(2) show ?thesis
      by (simp add: init_track_other)
  qed
qed

lemma process_detection_refreshed:
  assumes "process_detection sol st d = Inr (label, st')"
  shows "trk_pt st' (track_id d) = Some (t_store d) \<and> trk_pp st' (track_id d) = Some (position d)"
proof -
  from assms have "\<exists>st2. st' = refresh st2 d"
    by (auto simp: process_detection_def Let_def split: sum.splits if_splits)
  then show ?thesis by auto
qed

lemma estimate_speed_others:
  "estimate_speed sol st ds = Inr (ls, st') \<Longrightarrow> tid \<notin> track_id ` set ds \<Longrightarrow>
   trk_pt st' tid = trk_pt st tid \<and> trk_pp st' tid = trk_pp st tid"
proof (induction ds arbitrary: st ls)
  case Nil
  then show ?case by simp
next
  case (Cons d ds)
  from Cons.prems(1) obtain l st1 ls1 where pd: "process_detection sol st d = Inr (l, st1)"
    and es: "estimate_speed sol st1 ds = Inr (ls1, st')"
    by (auto split: sum.splits prod.splits)
  from Cons.prems(2) have ne: "tid \<noteq> track_id d" and rest: "tid \<notin> track_id ` set ds" by auto
  from Cons.IH [OF es rest] process_detection_other [OF pd ne] show ?case by simp
qed

text \<open>
  Claim C7. After \<open>estimate_speed\<close> has processed a frame, the stored timestamp and the
  stored position of every track id of the frame are the clock reading and the position
  of its (last) detection in the frame, whatever the crossing test said and whether or not
  the id was already sampled.
\<close>

theorem C7_bookkeeping_every_frame:
  "estimate_speed sol st (ds1 @ d # ds2) = Inr (ls, st') \<and> track_id d \<notin> track_id ` set ds2 \<longrightarrow>
     trk_pt st' (track_id d) = Some (t_store d) \<and> trk_pp st' (track_id d) = Some (position d)"
proof (intro impI, elim conjE)
  assume es: "estimate_speed sol st (ds1 @ d # ds2) = Inr (ls, st')"
    and last: "track_id d \<notin> track_id ` set ds2"
  from es obtain la sa l sb lb where "estimate_speed sol st ds1 = Inr (la, sa)"
    and pd: "process_detection sol sa d = Inr (l, sb)"
    and e2: "estimate_speed sol sb ds2 = Inr (lb, st')"
    by (auto simp: estimate_speed_append split: sum.splits prod.splits)
  from estimate_speed_others [OF e2 last] process_detection_refreshed [OF pd]
  show "trk_pt st' (track_id d) = Some (t_store d) \<and> trk_pp st' (track_id d) = Some (position d)"
    by simp
qed

theorem C7_bookkeeping_every_frame_witness:
  "estimate_speed example_solution sampled_state
     ([seen 2 7 (300, 100) 8] @ seen 1 2 (640, 100) 9 # [seen 3 2 (100, 400) 10]) =
     Inr ([''truck'', ''50 km/h'', ''car''],
          sampled_state\<lparr>trk_pt := [1 \<mapsto> 9, 2 \<mapsto> 8, 3 \<mapsto> 10],
            trk_pp := [1 \<mapsto> (640, 100), 2 \<mapsto> (300, 100), 3 \<mapsto> (100, 400)]\<rparr>) \<and>
   track_id (seen 1 2 (640, 100) 9) \<notin> track_id ` set [seen 3 2 (100, 400) 10] \<and>
   crosses_height 150 (640, 200) (640, 100) \<and> 1 \<in> set (trkd_ids sampled_state)"
  using C7_bookkeeping_every_frame [of example_solution sampled_state "[seen 2 7 (300, 100) 8]"
      "seen 1 2 (640, 100) 9" "[seen 3 2 (100, 400) 10]" "[''truck'', ''50 km/h'', ''car'']"
      "sampled_state\<lparr>trk_pt := [1 \<mapsto> 9, 2 \<mapsto> 8, 3 \<mapsto> 10],
            trk_pp := [1 \<mapsto> (640, 100), 2 \<mapsto> (300, 100), 3 \<mapsto> (100, 400)]\<rparr>"]
  by (simp add: eval_defs speed_text_def show_int_def int_of_float_def show_nat_50 fun_upd_twist)

section \<open>Properties of the report\<close>

subsection \<open>What the first loop collects\<close>

lemma set_first_seen [simp]: "set (first_seen xs) = set xs"
proof (induction xs rule: first_seen.induct)
  case 1
  show ?case by simp
next
  case (2 x xs)
  then show ?case by auto
qed

lemma dd_append_new:
  "k \<notin> fst ` set vs \<Longrightarrow> dd_append vs k v = vs @ [(k, [v])]"
  by (induction vs) auto

lemma dd_append_old:
  "k \<in> fst ` set vs \<Longrightarrow> distinct (map fst vs) \<Longrightarrow>
   dd_append vs k v = map (\<lambda>(k', old). (k', if k' = k then old @ [v] else old)) vs"
proof (induction vs)
  case Nil
  then show ?case by simp
next
  case (Cons p vs)
  obtain k' old where p: "p = (k', old)" by (cases p)
  show ?case
  proof (cases "k' = k")
    case True
    with Cons.prems(2) p have "\<forall>q \<in> set vs. fst q \<noteq> k" by auto
    then have "map (\<lambda>(k', old). (k', if k' = k then old @ [v] else old)) vs = vs"
      by (induction vs) auto
    with True p show ?thesis by simp
  next
    case False
    with Cons p show ?thesis by auto
  qed
qed

lemma class_samples_Cons:
  "class_samples k ((k', v) # sp) = (if k' = k then v # class_samples k sp else class_samples k sp)"
  by (simp add: class_samples_def)

lemma groups_general:
  "distinct (map fst vs) \<Longrightarrow>
   snd (write_samples sp out vs) =
     map (\<lambda>(k, old). (k, old @ class_samples k sp)) vs @
     map (\<lambda>k. (k, class_samples k sp)) (first_seen (filter (\<lambda>k. k \<notin> fst ` set vs) (map fst sp)))"
proof (induction sp arbitrary: out vs)
  case Nil
  then show ?case by (simp add: class_samples_def)
next
  case (Cons p sp)
  obtain k v where p: "p = (k, v)" by (cases p)
  let ?rest = "map fst sp"
  show ?case
  proof (cases "k \<in> fst ` set vs")
    case True
    let ?vs' = "map (\<lambda>(k', old). (k', if k' = k then old @ [v] else old)) vs"
    have dd: "dd_append vs k v = ?vs'" using True Cons.prems by (rule dd_append_old)
    have keys: "map fst ?vs' = map fst vs" by (induction vs) auto
    then have keyset: "fst ` set ?vs' = fst ` set vs" by (metis list.set_map)
    have dist: "distinct (map fst ?vs')" by (subst keys) (rule Cons.prems)
    have a: "map (\<lambda>(k, old). (k, old @ class_samples k sp)) ?vs' =
             map (\<lambda>(k', old). (k', old @ class_samples k' ((k, v) # sp))) vs"
      by (induction vs) (auto simp: class_samples_Cons)
    have b: "map (\<lambda>k'. (k', class_samples k' sp)) (first_seen (filter (\<lambda>k. k \<notin> fst ` set vs) ?rest)) =
             map (\<lambda>k'. (k', class_samples k' ((k, v) # sp))) (first_seen (filter (\<lambda>k. k \<notin> fst ` set vs) ?rest))"
    proof (intro map_cong refl)
      fix k' assume "k' \<in> set (first_seen (filter (\<lambda>k. k \<notin> fst ` set vs) ?rest))"
      then have "k' \<notin> fst ` set vs" by simp
      with True have "k' \<noteq> k" by blast
      then show "(k', class_samples k' sp) = (k', class_samples k' ((k, v) # sp))"
        by (simp add: class_samples_Cons)
    qed
    have "snd (write_samples (p # sp) out vs) = snd (write_samples sp (out @ sample_line k v) ?vs')"
      using p dd by simp
    also have "\<dots> = map (\<lambda>(k, old). (k, old @ class_samples k sp)) ?vs' @
        map (\<lambda>k. (k, class_samples k sp)) (first_seen (filter (\<lambda>k. k \<notin> fst ` set ?vs') ?rest))"
      by (rule Cons.IH [OF dist])
    finally show ?thesis using True p a b keyset by simp
  next
    case False
    let ?vs' = "vs @ [(k, [v])]"
    have dd: "dd_append vs k v = ?vs'" using False by (rule dd_append_new)
    have dist: "distinct (map fst ?vs')" using False Cons.prems by simp
    have a: "map (\<lambda>(k, old). (k, old @ class_samples k sp)) vs =
             map (\<lambda>(k', old). (k', old @ class_samples k' ((k, v) # sp))) vs"
    proof (intro map_cong refl)
      fix q assume q: "q \<in> set vs"
      obtain k' old where "q = (k', old)" by (cases q)
      with q False have "k' \<noteq> k" by force
      with \<open>q = (k', old)\<close> show "(case q of (k, old) \<Rightarrow> (k, old @ class_samples k sp)) =
          (case q of (k', old) \<Rightarrow> (k', old @ class_samples k' ((k, v) # sp)))"
        by (simp add: class_samples_Cons)
    qed
    have f: "filter (\<lambda>x. x \<notin> fst ` set ?vs') ?rest =
             filter (\<lambda>y. y \<noteq> k) (filter (\<lambda>x. x \<notin> fst ` set vs) ?rest)"
      by (induction sp) auto
    have b: "map (\<lambda>k'. (k', class_samples k' sp))
               (first_seen (filter (\<lambda>y. y \<noteq> k) (filter (\<lambda>x. x \<notin> fst ` set vs) ?rest))) =
             map (\<lambda>k'. (k', class_samples k' ((k, v) # sp)))
               (first_seen (filter (\<lambda>y. y \<noteq> k) (filter (\<lambda>x. x \<notin> fst ` set vs) ?rest)))"
      by (intro map_cong refl) (auto simp: class_samples_Cons)
    have "snd (write_samples (p # sp) out vs) = snd (write_samples sp (out @ sample_line k v) ?vs')"
      using p dd by simp
    also have "\<dots> = map (\<lambda>(k, old). (k, old @ class_samples k sp)) ?vs' @
        map (\<lambda>k. (k, class_samples k sp)) (first_seen (filter (\<lambda>k. k \<notin> fst ` set ?vs') ?rest))"
      by (rule Cons.IH [OF dist])
    finally show ?thesis using False p a b f by (simp add: class_samples_Cons)
  qed
qed

lemma groups_from_empty:
  "snd (write_samples sp out []) = map (\<lambda>k. (k, class_samples k sp)) (first_seen (map fst sp))"
  using groups_general [of "[]" sp out] by simp

lemma text_of_write_samples:
  "fst (write_samples sp out vs) =
     out @ concat (map (\<lambda>(vehicle_type, speed). sample_line vehicle_type speed) sp)"
  by (induction sp arbitrary: out vs) auto

lemma write_averages_nonempty:
  "\<forall>g \<in> set vs. snd g \<noteq> [] \<Longrightarrow>
   write_averages vs out = Inr (out @ concat (map (\<lambda>(k, sp). average_line k (mean sp)) vs))"
  by (induction vs arbitrary: out) (auto simp: mean_def)

lemma class_samples_nonempty:
  "k \<in> fst ` set sp \<Longrightarrow> class_samples k sp \<noteq> []"
  by (auto simp: class_samples_def filter_empty_conv)

lemma groups_nonempty:
  "g \<in> set (snd (write_samples sp out [])) \<Longrightarrow> snd g \<noteq> []"
proof -
  assume "g \<in> set (snd (write_samples sp out []))"
  then obtain k where "k \<in> set (map fst sp)" "g = (k, class_samples k sp)"
    by (auto simp: groups_from_empty)
  then show ?thesis using class_samples_nonempty [of k sp] by simp
qed

subsection \<open>The content of the file\<close>

lemma save_speeds_to_file_content:
  assumes "''output'' \<in> set (directories fs)"
  shows "save_speeds_to_file unique_id fs st =
           Inr (fs\<lparr>files := (files fs)(report_filename unique_id \<mapsto> report_text (speeds st))\<rparr>)"
proof -
  obtain text1 vs where ws: "write_samples (speeds st) header [] = (text1, vs)"
    by (cases "write_samples (speeds st) header []")
  from ws text_of_write_samples [of "speeds st" header "[]"]
  have t1: "text1 = header @
      concat (map (\<lambda>(vehicle_type, speed). sample_line vehicle_type speed) (speeds st))"
    by simp
  from ws groups_from_empty [of "speeds st" header]
  have vs: "vs = map (\<lambda>k. (k, class_samples k (speeds st))) (first_seen (map fst (speeds st)))"
    by simp
  from ws groups_nonempty [of _ "speeds st" header] have "\<forall>g \<in> set vs. snd g \<noteq> []" by simp
  then have "write_averages vs averages_header =
      Inr (averages_header @ concat (map (\<lambda>(k, sp). average_line k (mean sp)) vs))"
    by (rule write_averages_nonempty)
  also have "concat (map (\<lambda>(k, sp). average_line k (mean sp)) vs) =
      concat (map (\<lambda>k. average_line k (mean (class_samples k (speeds st))))
                (first_seen (map fst (speeds st))))"
    by (simp add: vs comp_def)
  finally have wa: "write_averages vs averages_header =
      Inr (averages_header @ concat (map (\<lambda>k. average_line k (mean (class_samples k (speeds st))))
                (first_seen (map fst (speeds st)))))" .
  show ?thesis
    using assms ws wa t1
    by (simp add: save_speeds_to_file_def Let_def write_mode_w_def write_mode_a_def report_text_def)
qed

lemma marker_suffix:
  "suffix (marker @ newline) (sample_line vehicle_type speed) \<longleftrightarrow> speed > 100"
proof (cases "speed > 100")
  case True
  then have "sample_line vehicle_type speed =
      (ljust 13 vehicle_type @ '' '' @ rjust 10 (format_2f speed) @ '' km/h '') @ marker @ newline"
    by (simp add: sample_line_def)
  then have "suffix (marker @ newline) (sample_line vehicle_type speed)"
    unfolding suffix_def by blast
  with True show ?thesis by simp
next
  case False
  then have eq: "sample_line vehicle_type speed =
      (ljust 15 vehicle_type @ '' '' @ rjust 10 (format_2f speed) @ '' km'') @ ''/h'' @ newline"
    by (simp add: sample_line_def)
  have "\<not> suffix (marker @ newline) (sample_line vehicle_type speed)"
  proof
    assume "suffix (marker @ newline) (sample_line vehicle_type speed)"
    then obtain zs where "sample_line vehicle_type speed = zs @ marker @ newline"
      by (auto simp: suffix_def)
    with eq have "(ljust 15 vehicle_type @ '' '' @ rjust 10 (format_2f speed) @ '' km'') @ ''/h'' @ newline
        = (zs @ [CHR 0xE2]) @ [CHR 0xAD, CHR 0x95] @ newline"
      by (simp add: marker_def)
    then have "''/h'' @ newline = [CHR 0xAD, CHR 0x95] @ newline"
      by (subst (asm) append_eq_append_conv) (simp_all add: newline_def)
    then show False by simp
  qed
  with False show ?thesis by simp
qed

subsection \<open>The example of three samples\<close>

lemma show_nat_digits:
  "show_nat 50 = ''50''" "show_nat 60 = ''60''" "show_nat 70 = ''70''" "show_nat 120 = ''120''"
  by (simp_all add: show_nat.simps)

lemma rhe_int: "round_half_even (of_int i) = i"
  by (simp add: round_half_even_def Let_def)

lemma format_2f_examples:
  "format_2f 50 = ''50.00''" "format_2f 60 = ''60.00''" "format_2f 70 = ''70.00''"
  "format_2f 120 = ''120.00''"
proof -
  have r: "round_half_even 5000 = 5000" "round_half_even 6000 = 6000"
    "round_half_even 7000 = 7000" "round_half_even 12000 = 12000"
    using rhe_int [of 5000] rhe_int [of 6000] rhe_int [of 7000] rhe_int [of 12000] by simp_all
  show "format_2f 50 = ''50.00''" "format_2f 60 = ''60.00''" "format_2f 70 = ''70.00''"
    "format_2f 120 = ''120.00''"
    by (simp_all add: format_2f_def Let_def r show_nat_digits)
qed

lemma example_lines:
  "sample_line ''car'' 50 = ''car                  50.00 km/h'' @ newline"
  "sample_line ''car'' 70 = ''car                  70.00 km/h'' @ newline"
  "sample_line ''truck'' 120 = ''truck             120.00 km/h '' @ marker @ newline"
  "average_line ''car'' 60 = ''car                  60.00 km/h'' @ newline"
  "average_line ''truck'' 120 = ''truck               120.00 km/h'' @ newline"
  by (simp_all add: sample_line_def average_line_def ljust_def rjust_def format_2f_examples)
     (simp_all add: eval_nat_numeral)

lemma example_groups:
  "first_seen (map fst example_samples) = [''car'', ''truck'']"
  "mean (class_samples ''car'' example_samples) = 60"
  "mean (class_samples ''truck'' example_samples) = 120"
  by (simp_all add: example_samples_def class_samples_def mean_def)

lemma example_report:
  "report_text example_samples =
      ''Vehicle Type      Speed (km/h)'' @ newline @
      ''=============================='' @ newline @
      ''car                  50.00 km/h'' @ newline @
      ''car                  70.00 km/h'' @ newline @
      ''truck             120.00 km/h '' @ marker @ newline @
      newline @ ''Average Speeds:'' @ newline @
      ''=============================='' @ newline @
      ''car                  60.00 km/h'' @ newline @
      ''truck               120.00 km/h'' @ newline"
proof -
  have "report_text example_samples =
      header @ sample_line ''car'' 50 @ sample_line ''car'' 70 @ sample_line ''truck'' 120 @
      averages_header @ average_line ''car'' 60 @ average_line ''truck'' 120"
    unfolding report_text_def example_groups list.map concat.simps
    by (simp add: example_groups) (simp add: example_samples_def)
  then show ?thesis
    by (simp only: example_lines header_def averages_header_def append_assoc)
qed

text \<open>
  Claim C8. When the output directory exists, \<open>save_speeds_to_file\<close> succeeds and the
  file holds the report as specified: the header, one line for each sample, then for
  each class, in the order in which the classes are first seen, the arithmetic mean of
  its samples. A sample line ends with the marker exactly when its speed exceeds 100.
  For the samples car 50, car 70, truck 120 the classes are car and truck, the means are
  60 and 120, and the report is the text below, with the marker on the truck line only.
\<close>

theorem C8_report_content:
  "(''output'' \<in> set (directories fs) \<longrightarrow>
      save_speeds_to_file unique_id fs st =
        Inr (fs\<lparr>files := (files fs)(report_filename unique_id \<mapsto> report_text (speeds st))\<rparr>)) \<and>
   (suffix (marker @ newline) (sample_line vehicle_type speed) \<longleftrightarrow> speed > 100) \<and>
   first_seen (map fst example_samples) = [''car'', ''truck''] \<and>
   mean (class_samples ''car'' example_samples) = 60 \<and>
   mean (class_samples ''truck'' example_samples) = 120 \<and>
   report_text example_samples =
      ''Vehicle Type      Speed (km/h)'' @ newline @
      ''=============================='' @ newline @
      ''car                  50.00 km/h'' @ newline @
      ''car                  70.00 km/h'' @ newline @
      ''truck             120.00 km/h '' @ marker @ newline @
      newline @ ''Average Speeds:'' @ newline @
      ''=============================='' @ newline @
      ''car                  60.00 km/h'' @ newline @
      ''truck               120.00 km/h'' @ newline"
proof (intro conjI impI)
  assume "''output'' \<in> set (directories fs)"
  then show "save_speeds_to_file unique_id fs st =
        Inr (fs\<lparr>files := (files fs)(report_filename unique_id \<mapsto> report_text (speeds st))\<rparr>)"
    by (rule save_speeds_to_file_content)
next
  show "suffix (marker @ newline) (sample_line vehicle_type speed) \<longleftrightarrow> speed > 100"
    by (rule marker_suffix)
next
  show "first_seen (map fst example_samples) = [''car'', ''truck'']"
    by (rule example_groups)
next
  show "mean (class_samples ''car'' example_samples) = 60"
    by (rule example_groups)
next
  show "mean (class_samples ''truck'' example_samples) = 120"
    by (rule example_groups)
next
  show "report_text example_samples =
      ''Vehicle Type      Speed (km/h)'' @ newline @
      ''=============================='' @ newline @
      ''car                  50.00 km/h'' @ newline @
      ''car                  70.00 km/h'' @ newline @
      ''truck             120.00 km/h '' @ marker @ newline @
      newline @ ''Average Speeds:'' @ newline @
      ''=============================='' @ newline @
      ''car                  60.00 km/h'' @ newline @
      ''truck               120.00 km/h'' @ newline"
    by (rule example_report)
qed

theorem C8_report_content_witness:
  "''output'' \<in> set (directories example_filesystem) \<and>
   save_speeds_to_file ''u'' example_filesystem (initial\<lparr>speeds := example_samples\<rparr>) =
     Inr (example_filesystem\<lparr>files := (files example_filesystem)(report_filename ''u'' \<mapsto>
            report_text (speeds (initial\<lparr>speeds := example_samples\<rparr>)))\<rparr>) \<and>
   suffix (marker @ newline) (sample_line ''truck'' 120) \<and>
   \<not> suffix (marker @ newline) (sample_line ''car'' 50)"
proof -
  note truck = C8_report_content [of example_filesystem "''u''"
      "initial\<lparr>speeds := example_samples\<rparr>" "''truck''" 120]
  note car = C8_report_content [of example_filesystem "''u''"
      "initial\<lparr>speeds := example_samples\<rparr>" "''car''" 50]
  have d: "''output'' \<in> set (directories example_filesystem)"
    by (simp add: example_filesystem_def)
  have s: "save_speeds_to_file ''u'' example_filesystem (initial\<lparr>speeds := example_samples\<rparr>) =
     Inr (example_filesystem\<lparr>files := (files example_filesystem)(report_filename ''u'' \<mapsto>
            report_text (speeds (initial\<lparr>speeds := example_samples\<rparr>)))\<rparr>)"
    using truck [THEN conjunct1] d by (rule mp)
  have t: "suffix (marker @ newline) (sample_line ''truck'' 120)"
    using truck [THEN conjunct2, THEN conjunct1] by simp
  have c: "\<not> suffix (marker @ newline) (sample_line ''car'' 50)"
    using car [THEN conjunct2, THEN conjunct1] by simp
  from d s t c show ?thesis by (intro conjI)
qed

subsection \<open>Two generations of the report\<close>

lemma save_speeds_to_file_Inr:
  assumes "save_speeds_to_file unique_id fs st = Inr fs'"
  shows "files fs' (report_filename unique_id) = Some (report_text (speeds st))"
proof (cases "''output'' \<in> set (directories fs)")
  case True
  from save_speeds_to_file_content [OF True, of unique_id st] assms show ?thesis by auto
next
  case False
  with assms show ?thesis by (simp add: save_speeds_to_file_def Let_def)
qed

text \<open>
  Claim C9. Two runs of \<open>save_speeds_to_file\<close> over the same list of samples, with any
  two identifiers and on any two file systems, leave the same content in the file each
  of them names; the names differ when the identifiers do.
\<close>

theorem C9_report_deterministic:
  "save_speeds_to_file u1 fs1 st1 = Inr fs1' \<and> save_speeds_to_file u2 fs2 st2 = Inr fs2' \<and>
   speeds st1 = speeds st2 \<longrightarrow>
     files fs1' (report_filename u1) = files fs2' (report_filename u2) \<and>
     files fs1' (report_filename u1) = Some (report_text (speeds st1)) \<and>
     (u1 \<noteq> u2 \<longrightarrow> report_filename u1 \<noteq> report_filename u2)"
proof (intro impI, elim conjE)
  assume 1: "save_speeds_to_file u1 fs1 st1 = Inr fs1'"
    and 2: "save_speeds_to_file u2 fs2 st2 = Inr fs2'" and eq: "speeds st1 = speeds st2"
  have "report_filename u1 \<noteq> report_filename u2" if "u1 \<noteq> u2"
    using that by (simp add: report_filename_def)
  with save_speeds_to_file_Inr [OF 1] save_speeds_to_file_Inr [OF 2] eq
  show "files fs1' (report_filename u1) = files fs2' (report_filename u2) \<and>
     files fs1' (report_filename u1) = Some (report_text (speeds st1)) \<and>
     (u1 \<noteq> u2 \<longrightarrow> report_filename u1 \<noteq> report_filename u2)"
    by simp
qed

theorem C9_report_deterministic_witness:
  "save_speeds_to_file ''a'' example_filesystem (initial\<lparr>speeds := example_samples\<rparr>) =
     Inr (example_filesystem\<lparr>files := [''output/speeds_a.txt'' \<mapsto> report_text example_samples]\<rparr>) \<and>
   save_speeds_to_file ''b''
       (example_filesystem\<lparr>files := [''output/speeds_b.txt'' \<mapsto> ''old'']\<rparr>)
       (sampled_state\<lparr>speeds := example_samples\<rparr>) =
     Inr (example_filesystem\<lparr>files := [''output/speeds_b.txt'' \<mapsto> report_text example_samples]\<rparr>) \<and>
   report_filename ''a'' \<noteq> report_filename ''b''"
  using C9_report_deterministic [of "''a''" example_filesystem "initial\<lparr>speeds := example_samples\<rparr>"
      "example_filesystem\<lparr>files := [''output/speeds_a.txt'' \<mapsto> report_text example_samples]\<rparr>"
      "''b''" "example_filesystem\<lparr>files := [''output/speeds_b.txt'' \<mapsto> ''old'']\<rparr>"
      "sampled_state\<lparr>speeds := example_samples\<rparr>"
      "example_filesystem\<lparr>files := [''output/speeds_b.txt'' \<mapsto> report_text example_samples]\<rparr>"]
  by (simp add: save_speeds_to_file_content example_filesystem_def report_filename_def)

subsection \<open>No division by zero\<close>

text \<open>
  Claim C10. Every list in the dictionary built by the first loop is non-empty, so the
  second loop computes every mean and \<open>save_speeds_to_file\<close> never raises
  \<open>ZeroDivisionError\<close>; for an empty list of samples the dictionary is empty.
\<close>

theorem C10_no_division_by_zero:
  "(\<forall>g \<in> set (snd (write_samples (speeds st) out [])). snd g \<noteq> []) \<and>
   (\<exists>text. write_averages (snd (write_samples (speeds st) out [])) out' = Inr text) \<and>
   save_speeds_to_file unique_id fs st \<noteq> Inl ZeroDivisionError \<and>
   snd (write_samples [] out []) = []"
proof (intro conjI)
  show ne: "\<forall>g \<in> set (snd (write_samples (speeds st) out [])). snd g \<noteq> []"
    using groups_nonempty by blast
  from write_averages_nonempty [OF ne]
  show "\<exists>text. write_averages (snd (write_samples (speeds st) out [])) out' = Inr text" by blast
  show "save_speeds_to_file unique_id fs st \<noteq> Inl ZeroDivisionError"
  proof (cases "''output'' \<in> set (directories fs)")
    case True
    from save_speeds_to_file_content [OF True, of unique_id st] show ?thesis by simp
  next
    case False
    then show ?thesis by (simp add: save_speeds_to_file_def Let_def)
  qed
  show "snd (write_samples [] out []) = []" by simp
qed

theorem C10_no_division_by_zero_witness:
  "snd (write_samples (speeds (initial\<lparr>speeds := example_samples\<rparr>)) header []) =
     [(''car'', [50, 70]), (''truck'', [120])] \<and>
   [50, 70 :: real] \<noteq> [] \<and> [120 :: real] \<noteq> [] \<and>
   save_speeds_to_file ''u'' example_filesystem initial =
     Inr (example_filesystem\<lparr>files := [''output/speeds_u.txt'' \<mapsto> header @ averages_header]\<rparr>)"
  using C10_no_division_by_zero [of "initial\<lparr>speeds := example_samples\<rparr>" header averages_header
      "''u''" example_filesystem]
  by (simp add: example_samples_def save_speeds_to_file_def Let_def initial_def
      example_filesystem_def report_filename_def write_mode_w_def write_mode_a_def)

end
